theory Spec2Isabelle
  imports Main "HOL-Library.AList"
begin

section \<open>Data model of the connection manager\<close>

text \<open>
  The hub of \<^verbatim>\<open>backend/server.py\<close> is the class \<^verbatim>\<open>ConnectionManager\<close> and the
  coroutine \<^verbatim>\<open>websocket_endpoint\<close>. The manager holds two dictionaries of dictionaries,
  \<^verbatim>\<open>active_connections\<close> (document id to user id to websocket) and \<^verbatim>\<open>user_info\<close>
  (document id to user id to the presence entry of that user).

  The outer dictionaries are only looked up, stored to and deleted from, so they are maps.
  The inner dictionaries are iterated (\<^verbatim>\<open>.items()\<close>, \<^verbatim>\<open>.values()\<close>), so they are
  association lists in insertion order: storing to a present key keeps its position
  and storing to a new key appends (\<open>AList.update\<close>), deleting removes the entry
  (\<open>AList.delete\<close>).

  A websocket is identified by a number. What the hub does to websockets (accept, send,
  close) is recorded, in order, in the list \<open>effects\<close>.
  Each coroutine is modelled as running without interleaving with other coroutines.
\<close>

type_synonym websocket = nat

record user_entry =
  user_id :: string
  user_name :: string
  connected_at :: string

text \<open>
  A message handed to \<^verbatim>\<open>send_text\<close> is either the text received from a client,
  passed on as it is, or \<^verbatim>\<open>json.dumps\<close> of the presence dictionary
  \<^verbatim>\<open>{"type": "presence", "users": [...]}\<close>, which is determined by its list of users.
\<close>

datatype message = Relay string | Presence "user_entry list"

datatype effect =
    Accepted websocket
  | Sent websocket message
  | Closed websocket nat string

datatype exn =
    RuntimeError
  | KeyError
  | JSONDecodeError
  | HTTPException nat string
  | OtherError

record state =
  active_connections :: "string \<rightharpoonup> (string \<times> websocket) list"
  user_info :: "string \<rightharpoonup> (string \<times> user_entry) list"
  effects :: "effect list"

definition init :: state where
  "init = \<lparr>active_connections = Map.empty, user_info = Map.empty, effects = []\<rparr>"

definition emit :: "effect \<Rightarrow> state \<Rightarrow> state" where
  "emit e s = s\<lparr>effects := effects s @ [e]\<rparr>"

section \<open>ConnectionManager\<close>

text \<open>
  \<^verbatim>\<open>disconnect\<close> (lines 63 to 73): four statements in sequence, two deletions of the
  user's entry and two deletions of a room that has become empty.
\<close>

definition disconnect :: "string \<Rightarrow> string \<Rightarrow> state \<Rightarrow> state" where
  "disconnect document_id uid s =
    (let s1 = (case active_connections s document_id of
                 Some room \<Rightarrow>
                   if uid \<in> set (map fst room)
                   then s\<lparr>active_connections :=
                            (active_connections s)(document_id \<mapsto> AList.delete uid room)\<rparr>
                   else s
               | None \<Rightarrow> s);
         s2 = (case user_info s1 document_id of
                 Some infos \<Rightarrow>
                   if uid \<in> set (map fst infos)
                   then s1\<lparr>user_info :=
                            (user_info s1)(document_id \<mapsto> AList.delete uid infos)\<rparr>
                   else s1
               | None \<Rightarrow> s1);
         s3 = (case active_connections s2 document_id of
                 Some room \<Rightarrow>
                   if room = []
                   then s2\<lparr>active_connections := (active_connections s2)(document_id := None)\<rparr>
                   else s2
               | None \<Rightarrow> s2);
         s4 = (case user_info s3 document_id of
                 Some infos \<Rightarrow>
                   if infos = []
                   then s3\<lparr>user_info := (user_info s3)(document_id := None)\<rparr>
                   else s3
               | None \<Rightarrow> s3)
     in s4)"

text \<open>
  \<^verbatim>\<open>broadcast\<close> (lines 80 to 89). \<open>broken\<close> is the set of websockets whose
  \<^verbatim>\<open>send_text\<close> raises. \<^verbatim>\<open>exclude_user\<close> is tested for truth first, so \<^verbatim>\<open>None\<close> and
  the empty string exclude nobody.

  The loop iterates over the live dictionary \<^verbatim>\<open>self.active_connections[document_id]\<close>.
  When a send raises, the handler calls \<^verbatim>\<open>disconnect\<close>, which deletes the current key
  from that very dictionary; the next step of the iterator then raises
  \<^verbatim>\<open>RuntimeError\<close> (dictionary changed size during iteration), also when the deleted
  key was the last one. That exception is raised outside the \<^verbatim>\<open>try\<close> and leaves
  \<^verbatim>\<open>broadcast\<close>.
\<close>

definition excluded :: "string option \<Rightarrow> string \<Rightarrow> bool" where
  "excluded exclude_user uid =
     (case exclude_user of None \<Rightarrow> False | Some e \<Rightarrow> e \<noteq> [] \<and> uid = e)"

fun broadcast_loop ::
  "websocket set \<Rightarrow> message \<Rightarrow> string \<Rightarrow> string option \<Rightarrow>
   (string \<times> websocket) list \<Rightarrow> state \<Rightarrow> exn option \<times> state" where
  "broadcast_loop broken msg document_id exclude_user [] s = (None, s)"
| "broadcast_loop broken msg document_id exclude_user ((uid, ws) # rest) s =
     (if excluded exclude_user uid
      then broadcast_loop broken msg document_id exclude_user rest s
      else if ws \<in> broken
      then (Some RuntimeError, disconnect document_id uid s)
      else broadcast_loop broken msg document_id exclude_user rest (emit (Sent ws msg) s))"

definition broadcast ::
  "websocket set \<Rightarrow> message \<Rightarrow> string \<Rightarrow> string option \<Rightarrow> state \<Rightarrow> exn option \<times> state" where
  "broadcast broken msg document_id exclude_user s =
     (case active_connections s document_id of
        None \<Rightarrow> (None, s)
      | Some room \<Rightarrow> broadcast_loop broken msg document_id exclude_user room s)"

text \<open>
  \<^verbatim>\<open>broadcast_presence\<close> (lines 91 to 97): the users of the presence message are
  \<^verbatim>\<open>list(self.user_info[document_id].values())\<close>, computed at the call.
\<close>

definition snapshot :: "state \<Rightarrow> string \<Rightarrow> user_entry list" where
  "snapshot s document_id =
     (case user_info s document_id of None \<Rightarrow> [] | Some infos \<Rightarrow> map snd infos)"

definition broadcast_presence :: "websocket set \<Rightarrow> string \<Rightarrow> state \<Rightarrow> exn option \<times> state" where
  "broadcast_presence broken document_id s =
     (case user_info s document_id of
        None \<Rightarrow> (None, s)
      | Some infos \<Rightarrow> broadcast broken (Presence (map snd infos)) document_id None s)"

text \<open>
  \<^verbatim>\<open>connect\<close> (lines 46 to 61). \<open>register\<close> is lines 47 to 58: accept the websocket,
  create the room in both dictionaries when \<^verbatim>\<open>active_connections\<close> has none, store the
  websocket and the presence entry. \<open>now\<close> is the text of the clock reading.
  A subscript on a missing key raises \<^verbatim>\<open>KeyError\<close>.
\<close>

definition register ::
  "websocket \<Rightarrow> string \<Rightarrow> string \<Rightarrow> string \<Rightarrow> string \<Rightarrow> state \<Rightarrow> exn option \<times> state" where
  "register ws document_id uid uname now s =
    (let s1 = emit (Accepted ws) s;
         s2 = (if active_connections s1 document_id = None
               then s1\<lparr>active_connections := (active_connections s1)(document_id \<mapsto> []),
                       user_info := (user_info s1)(document_id \<mapsto> [])\<rparr>
               else s1)
     in case active_connections s2 document_id of
          None \<Rightarrow> (Some KeyError, s2)
        | Some room \<Rightarrow>
           (let s3 = s2\<lparr>active_connections :=
                          (active_connections s2)(document_id \<mapsto> AList.update uid ws room)\<rparr>
            in case user_info s3 document_id of
                 None \<Rightarrow> (Some KeyError, s3)
               | Some infos \<Rightarrow>
                   (None, s3\<lparr>user_info := (user_info s3)(document_id \<mapsto>
                      AList.update uid
                        \<lparr>user_id = uid, user_name = uname, connected_at = now\<rparr> infos)\<rparr>)))"

definition connect ::
  "websocket set \<Rightarrow> websocket \<Rightarrow> string \<Rightarrow> string \<Rightarrow> string \<Rightarrow> string \<Rightarrow> state
   \<Rightarrow> exn option \<times> state" where
  "connect broken ws document_id uid uname now s =
     (case register ws document_id uid uname now s of
        (Some e, s1) \<Rightarrow> (Some e, s1)
      | (None, s1) \<Rightarrow> broadcast_presence broken document_id s1)"

section \<open>The websocket endpoint\<close>

text \<open>
  What the endpoint calls outside this repository is a parameter:
  \<^item> \<open>jwt_decode\<close>: what \<^verbatim>\<open>jwt.decode\<close> does with a token;
  \<^item> \<open>find_one\<close>: what \<^verbatim>\<open>db.documents.find_one\<close> returns for a document id
    (the document found, \<^verbatim>\<open>None\<close>, or an exception);
  \<^item> \<open>json_loads\<close>: whether \<^verbatim>\<open>json.loads\<close> returns on a text (it raises otherwise);
  \<^item> \<open>send_broken\<close>: the websockets whose \<^verbatim>\<open>send_text\<close> raises.
\<close>

record payload =
  payload_user_id :: "string option"
  payload_username :: "string option"

datatype jwt_result = Decoded payload | ExpiredSignatureError | JWTError

record document =
  collaborators :: "string list"

record env =
  jwt_decode :: "string \<Rightarrow> jwt_result"
  find_one :: "string \<Rightarrow> exn + document option"
  json_loads :: "string \<Rightarrow> bool"
  send_broken :: "websocket set"

text \<open>
  \<^verbatim>\<open>decode_jwt_token\<close> (lines 151 to 158) turns both failures into an HTTP error 401.
  Which exception leaves it makes no difference to the endpoint, whose outer handler
  catches every exception alike.
\<close>

definition decode_jwt_token :: "(string \<Rightarrow> jwt_result) \<Rightarrow> string \<Rightarrow> exn + payload" where
  "decode_jwt_token decode token =
     (case decode token of
        Decoded p \<Rightarrow> Inr p
      | ExpiredSignatureError \<Rightarrow> Inl (HTTPException 401 ''Token expired'')
      | JWTError \<Rightarrow> Inl (HTTPException 401 ''Invalid token''))"

text \<open>Python's \<^verbatim>\<open>not x\<close> on an optional text: true for \<^verbatim>\<open>None\<close> and for the empty text.\<close>

definition falsy :: "string option \<Rightarrow> bool" where
  "falsy x = (case x of None \<Rightarrow> True | Some t \<Rightarrow> t = [])"

text \<open>
  What \<^verbatim>\<open>await websocket.receive_text()\<close> does at one turn of the loop: it returns a
  text, raises \<^verbatim>\<open>WebSocketDisconnect\<close>, or raises something else.
\<close>

datatype recv = Text string | Disconnect | RecvError exn

text \<open>
  How a piece of the coroutine ends: suspended in \<^verbatim>\<open>receive_text\<close> with no further
  event to consume, returned, or left by an exception.
\<close>

datatype outcome = Awaiting | Returned | Raised exn

text \<open>
  The receive loop with its handler (lines 310 to 320), on the events the websocket
  delivers. An exception raised inside the handler for \<^verbatim>\<open>WebSocketDisconnect\<close>
  leaves the inner \<^verbatim>\<open>try\<close>.
\<close>

fun receive_loop :: "env \<Rightarrow> string \<Rightarrow> string \<Rightarrow> recv list \<Rightarrow> state \<Rightarrow> outcome \<times> state" where
  "receive_loop E document_id uid [] s = (Awaiting, s)"
| "receive_loop E document_id uid (Disconnect # evs) s =
     (case broadcast_presence (send_broken E) document_id (disconnect document_id uid s) of
        (None, s1) \<Rightarrow> (Returned, s1)
      | (Some e, s1) \<Rightarrow> (Raised e, s1))"
| "receive_loop E document_id uid (RecvError e # evs) s = (Raised e, s)"
| "receive_loop E document_id uid (Text data # evs) s =
     (if \<not> json_loads E data then (Raised JSONDecodeError, s)
      else case broadcast (send_broken E) (Relay data) document_id (Some uid) s of
             (Some e, s1) \<Rightarrow> (Raised e, s1)
           | (None, s1) \<Rightarrow> receive_loop E document_id uid evs s1)"

text \<open>The body of the outer \<^verbatim>\<open>try\<close> (lines 292 to 320).\<close>

definition endpoint_body ::
  "env \<Rightarrow> websocket \<Rightarrow> string \<Rightarrow> string \<Rightarrow> string \<Rightarrow> recv list \<Rightarrow> state \<Rightarrow> outcome \<times> state" where
  "endpoint_body E ws document_id token now evs s =
     (case decode_jwt_token (jwt_decode E) token of
        Inl e \<Rightarrow> (Raised e, s)
      | Inr p \<Rightarrow>
         if falsy (payload_user_id p) \<or> falsy (payload_username p)
         then (Returned, emit (Closed ws 1008 ''Invalid token'') s)
         else
           (case (payload_user_id p, payload_username p) of
              (Some uid, Some uname) \<Rightarrow>
                (case find_one E document_id of
                   Inl e \<Rightarrow> (Raised e, s)
                 | Inr None \<Rightarrow> (Returned, emit (Closed ws 1008 ''Access denied'') s)
                 | Inr (Some doc) \<Rightarrow>
                    if uid \<notin> set (collaborators doc)
                    then (Returned, emit (Closed ws 1008 ''Access denied'') s)
                    else
                      (case connect (send_broken E) ws document_id uid uname now s of
                         (Some e, s1) \<Rightarrow> (Raised e, s1)
                       | (None, s1) \<Rightarrow> receive_loop E document_id uid evs s1))
            | _ \<Rightarrow> (Returned, emit (Closed ws 1008 ''Invalid token'') s)))"

text \<open>
  \<^verbatim>\<open>websocket_endpoint\<close> (lines 285 to 324): the token test, the body, and the handler
  of the outer \<^verbatim>\<open>try\<close>, which closes the websocket with code 1011 on any exception.
\<close>

definition websocket_endpoint ::
  "env \<Rightarrow> websocket \<Rightarrow> string \<Rightarrow> string option \<Rightarrow> string \<Rightarrow> recv list \<Rightarrow> state
   \<Rightarrow> outcome \<times> state" where
  "websocket_endpoint E ws document_id token now evs s =
     (case token of
        None \<Rightarrow> (Returned, emit (Closed ws 1008 ''Token required'') s)
      | Some t \<Rightarrow>
         if t = [] then (Returned, emit (Closed ws 1008 ''Token required'') s)
         else
           (case endpoint_body E ws document_id t now evs s of
              (Raised e, s1) \<Rightarrow> (Returned, emit (Closed ws 1011 ''Internal error'') s1)
            | (r, s1) \<Rightarrow> (r, s1)))"

section \<open>Vocabulary of the properties\<close>

text \<open>
  The items of a room in \<^verbatim>\<open>active_connections\<close> and in \<^verbatim>\<open>user_info\<close>, empty when the
  document has no room.
\<close>

definition members :: "state \<Rightarrow> string \<Rightarrow> (string \<times> websocket) list" where
  "members s document_id =
     (case active_connections s document_id of None \<Rightarrow> [] | Some room \<Rightarrow> room)"

text \<open>
  What one run of the loop of \<^verbatim>\<open>broadcast\<close> does to a room, read off its items:
  \<open>reached\<close> are the members the message is sent to, in order, which are the members
  not excluded that come before the first one whose send fails; \<open>first_broken\<close> is the
  user of that first failing send, if there is one; \<open>sends\<close> are the effects of sending
  one message to a list of members.
\<close>

fun reached :: "websocket set \<Rightarrow> string option \<Rightarrow> (string \<times> websocket) list \<Rightarrow> (string \<times> websocket) list" where
  "reached broken ex [] = []"
| "reached broken ex ((uid, ws) # rest) =
     (if excluded ex uid then reached broken ex rest
      else if ws \<in> broken then []
      else (uid, ws) # reached broken ex rest)"

fun first_broken :: "websocket set \<Rightarrow> string option \<Rightarrow> (string \<times> websocket) list \<Rightarrow> string option" where
  "first_broken broken ex [] = None"
| "first_broken broken ex ((uid, ws) # rest) =
     (if excluded ex uid then first_broken broken ex rest
      else if ws \<in> broken then Some uid
      else first_broken broken ex rest)"

definition sends :: "message \<Rightarrow> (string \<times> websocket) list \<Rightarrow> effect list" where
  "sends msg targets = map (\<lambda>(uid, ws). Sent ws msg) targets"

definition entries :: "state \<Rightarrow> string \<Rightarrow> (string \<times> user_entry) list" where
  "entries s document_id =
     (case user_info s document_id of None \<Rightarrow> [] | Some infos \<Rightarrow> infos)"

text \<open>
  Four properties of the two dictionaries: no room is empty; both have the same
  documents and, for each, the same users in the same order; a room has one entry for a
  user at most; the presence entry stored under a user's key carries that user id.
\<close>

definition no_empty_room :: "state \<Rightarrow> bool" where
  "no_empty_room s = (\<forall>d. active_connections s d \<noteq> Some [] \<and> user_info s d \<noteq> Some [])"

definition same_keys :: "state \<Rightarrow> bool" where
  "same_keys s =
     (\<forall>d. map_option (map fst) (active_connections s d) = map_option (map fst) (user_info s d))"

definition one_entry_per_user :: "state \<Rightarrow> bool" where
  "one_entry_per_user s = (\<forall>d. distinct (map fst (members s d)))"

definition entries_keyed :: "state \<Rightarrow> bool" where
  "entries_keyed s = (\<forall>d. \<forall>(k, e) \<in> set (entries s d). user_id e = k)"

definition consistent :: "state \<Rightarrow> bool" where
  "consistent s = (no_empty_room s \<and> same_keys s \<and> one_entry_per_user s \<and> entries_keyed s)"

text \<open>
  The states of the manager: the empty one of \<^verbatim>\<open>__init__\<close>, and any state that a
  method of the manager or a run of the endpoint leaves, with any arguments, whether it
  returns or raises.
\<close>

inductive reachable :: "state \<Rightarrow> bool" where
  start: "reachable init"
| by_connect: "reachable s \<Longrightarrow> reachable (snd (connect B ws d u n t s))"
| by_disconnect: "reachable s \<Longrightarrow> reachable (disconnect d u s)"
| by_broadcast: "reachable s \<Longrightarrow> reachable (snd (broadcast B msg d ex s))"
| by_broadcast_presence: "reachable s \<Longrightarrow> reachable (snd (broadcast_presence B d s))"
| by_endpoint: "reachable s \<Longrightarrow> reachable (snd (websocket_endpoint E ws d token now evs s))"

text \<open>The room after a first user has connected to the empty manager.\<close>

definition one_user :: state where
  "one_user = snd (connect {} 1 ''doc'' ''u1'' ''Ann'' ''t0'' init)"

text \<open>
  A sample environment for the scenarios evaluated below: two tokens that decode to the
  collaborators \<open>u1\<close> and \<open>u2\<close> of the document \<open>doc\<close>, a token whose signature has
  expired, every other token undecodable, a document id on which the database call
  raises, a JSON text that \<^verbatim>\<open>json.loads\<close> accepts (the empty object), and no broken
  websocket. Of \<^verbatim>\<open>json.loads\<close> only its answers on the texts \<^verbatim>\<open>{}\<close> and \<^verbatim>\<open>hello\<close> are
  used, and both are Python's.
\<close>

definition sample_env :: env where
  "sample_env =
     \<lparr>jwt_decode = (\<lambda>t.
        if t = ''token-u1''
        then Decoded \<lparr>payload_user_id = Some ''u1'', payload_username = Some ''Ann''\<rparr>
        else if t = ''token-u2''
        then Decoded \<lparr>payload_user_id = Some ''u2'', payload_username = Some ''Bob''\<rparr>
        else if t = ''expired'' then ExpiredSignatureError
        else JWTError),
      find_one = (\<lambda>d.
        if d = ''doc'' then Inr (Some \<lparr>collaborators = [''u1'', ''u2'']\<rparr>)
        else if d = ''down'' then Inl OtherError
        else Inr None),
      json_loads = (\<lambda>data. data = ''{}''),
      send_broken = {}\<rparr>"

text \<open>
  A room of three members, the dictionaries as three calls of \<^verbatim>\<open>connect\<close> leave them,
  with an empty record of effects.
\<close>

definition three_users :: state where
  "three_users =
     \<lparr>active_connections = [''doc'' \<mapsto> [(''A'', 1), (''B'', 2), (''C'', 3)]],
      user_info = [''doc'' \<mapsto>
        [(''A'', \<lparr>user_id = ''A'', user_name = ''Ann'', connected_at = ''t1''\<rparr>),
         (''B'', \<lparr>user_id = ''B'', user_name = ''Bob'', connected_at = ''t2''\<rparr>),
         (''C'', \<lparr>user_id = ''C'', user_name = ''Cy'', connected_at = ''t3''\<rparr>)]],
      effects = []\<rparr>"

text \<open>The room after a second user has connected.\<close>

definition two_users :: state where
  "two_users = snd (connect {} 2 ''doc'' ''u2'' ''Bob'' ''t1'' one_user)"







section \<open>Basic facts\<close>

lemma effects_emit [simp]: "effects (emit e s) = effects s @ [e]"
  by (simp add: emit_def)

lemma active_emit [simp]: "active_connections (emit e s) = active_connections s"
  by (simp add: emit_def)

lemma info_emit [simp]: "user_info (emit e s) = user_info s"
  by (simp add: emit_def)

lemma disconnect_active:
  "active_connections (disconnect d u s) =
     (case active_connections s d of
        None \<Rightarrow> active_connections s
      | Some room \<Rightarrow>
          if AList.delete u room = [] then (active_connections s)(d := None)
          else (active_connections s)(d \<mapsto> AList.delete u room))"
  by (auto simp: disconnect_def Let_def fun_eq_iff split: option.splits)

lemma disconnect_info:
  "user_info (disconnect d u s) =
     (case user_info s d of
        None \<Rightarrow> user_info s
      | Some infos \<Rightarrow>
          if AList.delete u infos = [] then (user_info s)(d := None)
          else (user_info s)(d \<mapsto> AList.delete u infos))"
  by (auto simp: disconnect_def Let_def fun_eq_iff split: option.splits)

lemma disconnect_effects [simp]: "effects (disconnect d u s) = effects s"
  by (auto simp: disconnect_def Let_def split: option.splits)

lemma disconnect_effects_update:
  "disconnect d u (s\<lparr>effects := es\<rparr>) = (disconnect d u s)\<lparr>effects := es\<rparr>"
  by (auto simp: disconnect_def Let_def split: option.splits)

lemma broadcast_loop_eq:
  "broadcast_loop B msg d ex room s =
     (case first_broken B ex room of
        None \<Rightarrow> (None, s\<lparr>effects := effects s @ sends msg (reached B ex room)\<rparr>)
      | Some u \<Rightarrow>
          (Some RuntimeError,
           disconnect d u (s\<lparr>effects := effects s @ sends msg (reached B ex room)\<rparr>)))"
proof (induction room arbitrary: s)
  case Nil
  show ?case by (simp add: sends_def)
next
  case (Cons p room)
  obtain uid ws where p: "p = (uid, ws)" by (cases p)
  show ?case
    by (simp add: p Cons.IH sends_def emit_def split: option.splits)
qed

lemma delete_Nil_iff: "AList.delete u xs = [] \<longleftrightarrow> set (map fst xs) \<subseteq> {u}"
  by (induction xs) (auto simp: AList.delete_eq)

lemma no_empty_room_disconnect: "no_empty_room s \<Longrightarrow> no_empty_room (disconnect d u s)"
  by (auto simp: no_empty_room_def disconnect_active disconnect_info split: option.splits)

lemma same_keys_disconnect: "same_keys s \<Longrightarrow> same_keys (disconnect d u s)"
  unfolding same_keys_def
proof (intro allI)
  fix d'
  assume a: "\<forall>d. map_option (map fst) (active_connections s d) = map_option (map fst) (user_info s d)"
  from a have d: "map_option (map fst) (active_connections s d) = map_option (map fst) (user_info s d)"
    and d': "map_option (map fst) (active_connections s d') = map_option (map fst) (user_info s d')"
    by blast+
  show "map_option (map fst) (active_connections (disconnect d u s) d') =
        map_option (map fst) (user_info (disconnect d u s) d')"
  proof (cases "active_connections s d")
    case None
    with d have "user_info s d = None" by simp
    with None d' show ?thesis by (simp add: disconnect_active disconnect_info)
  next
    case (Some room)
    with d obtain infos where i: "user_info s d = Some infos" and k: "map fst room = map fst infos"
      by (cases "user_info s d") auto
    have "(AList.delete u room = []) = (AList.delete u infos = [])"
      by (simp add: delete_Nil_iff k)
    moreover have "map fst (AList.delete u room) = map fst (AList.delete u infos)"
      by (simp add: delete_keys k)
    ultimately show ?thesis using Some i d'
      by (simp add: disconnect_active disconnect_info)
  qed
qed

lemma members_disconnect:
  "members (disconnect d u s) d' = (if d' = d then AList.delete u (members s d) else members s d')"
  by (auto simp: members_def disconnect_active split: option.splits)

lemma entries_disconnect:
  "entries (disconnect d u s) d' = (if d' = d then AList.delete u (entries s d) else entries s d')"
  by (auto simp: entries_def disconnect_info split: option.splits)

lemma one_entry_disconnect: "one_entry_per_user s \<Longrightarrow> one_entry_per_user (disconnect d u s)"
  by (simp add: one_entry_per_user_def members_disconnect distinct_delete)

lemma entries_keyed_disconnect: "entries_keyed s \<Longrightarrow> entries_keyed (disconnect d u s)"
  by (auto simp: entries_keyed_def entries_disconnect AList.delete_eq)

lemma consistent_disconnect: "consistent s \<Longrightarrow> consistent (disconnect d u s)"
  by (simp add: consistent_def no_empty_room_disconnect same_keys_disconnect one_entry_disconnect
      entries_keyed_disconnect)

lemma same_keys_NoneD:
  "same_keys s \<Longrightarrow> (user_info s d = None) = (active_connections s d = None)"
  by (metis same_keys_def option.map_disc_iff)

lemma register_eq:
  assumes "same_keys s"
  shows "register ws d u n t s =
    (None, s\<lparr>active_connections := (active_connections s)(d \<mapsto> AList.update u ws (members s d)),
              user_info := (user_info s)(d \<mapsto>
                 AList.update u \<lparr>user_id = u, user_name = n, connected_at = t\<rparr> (entries s d)),
              effects := effects s @ [Accepted ws]\<rparr>)"
proof (cases "active_connections s d")
  case None
  with assms have "user_info s d = None" by (simp add: same_keys_NoneD)
  with None show ?thesis
    by (simp add: register_def Let_def members_def entries_def emit_def)
next
  case (Some room)
  with assms obtain infos where "user_info s d = Some infos"
    using same_keys_NoneD by fastforce
  with Some show ?thesis
    by (simp add: register_def Let_def members_def entries_def emit_def)
qed

lemma set_update_subset: "set (AList.update k v xs) \<subseteq> insert (k, v) (set xs)"
  by (induction xs) auto

lemma no_empty_room_register: "no_empty_room s \<Longrightarrow> no_empty_room (snd (register ws d u n t s))"
  by (auto simp: no_empty_room_def register_def Let_def split: option.splits)

lemma consistent_register:
  assumes "consistent s"
  shows "consistent (snd (register ws d u n t s))"
proof -
  from assms have sk: "same_keys s" by (simp add: consistent_def)
  let ?s = "snd (register ws d u n t s)"
  have m: "members ?s d' = (if d' = d then AList.update u ws (members s d) else members s d')"
    for d' by (simp add: register_eq[OF sk] members_def)
  have e: "entries ?s d' = (if d' = d
      then AList.update u \<lparr>user_id = u, user_name = n, connected_at = t\<rparr> (entries s d)
      else entries s d')"
    for d' by (simp add: register_eq[OF sk] entries_def)
  have "same_keys ?s"
    unfolding same_keys_def
  proof
    fix d'
    have "map fst (members s d) = map fst (entries s d)"
      using sk by (auto simp: same_keys_def members_def entries_def split: option.splits
          dest: spec[where x=d])
    then have "map fst (AList.update u ws (members s d)) =
      map fst (AList.update u \<lparr>user_id = u, user_name = n, connected_at = t\<rparr> (entries s d))"
      by (simp add: update_keys)
    then show "map_option (map fst) (active_connections ?s d') =
        map_option (map fst) (user_info ?s d')"
      using sk by (simp add: register_eq[OF sk] same_keys_def)
  qed
  moreover have "one_entry_per_user ?s"
    using assms by (simp add: consistent_def one_entry_per_user_def m distinct_update)
  moreover have "entries_keyed ?s"
    using assms by (auto simp: consistent_def entries_keyed_def e dest!: subsetD[OF set_update_subset])
  ultimately show ?thesis
    using assms by (simp add: consistent_def no_empty_room_register)
qed

lemma consistent_effects_update [simp]: "consistent (s\<lparr>effects := es\<rparr>) = consistent s"
  by (simp add: consistent_def no_empty_room_def same_keys_def one_entry_per_user_def entries_keyed_def
      members_def entries_def)

lemma consistent_emit [simp]: "consistent (emit e s) = consistent s"
  by (simp add: emit_def)

lemma broadcast_eq:
  "broadcast B msg d ex s =
     (case first_broken B ex (members s d) of
        None \<Rightarrow> (None, s\<lparr>effects := effects s @ sends msg (reached B ex (members s d))\<rparr>)
      | Some u \<Rightarrow>
          (Some RuntimeError,
           (disconnect d u s)\<lparr>effects := effects s @ sends msg (reached B ex (members s d))\<rparr>))"
  by (simp add: broadcast_def members_def broadcast_loop_eq sends_def disconnect_effects_update
      split: option.splits)

lemma consistent_broadcast: "consistent s \<Longrightarrow> consistent (snd (broadcast B msg d ex s))"
  by (simp add: broadcast_eq consistent_disconnect split: option.splits)

lemma consistent_broadcast_presence: "consistent s \<Longrightarrow> consistent (snd (broadcast_presence B d s))"
  by (simp add: broadcast_presence_def consistent_broadcast split: option.splits)

lemma connect_eq:
  "same_keys s \<Longrightarrow>
   connect B ws d u n t s = broadcast_presence B d (snd (register ws d u n t s))"
  by (simp add: connect_def register_eq)

lemma consistent_connect: "consistent s \<Longrightarrow> consistent (snd (connect B ws d u n t s))"
  by (simp add: connect_eq consistent_def[of s] consistent_broadcast_presence consistent_register)

lemma consistent_receive_loop: "consistent s \<Longrightarrow> consistent (snd (receive_loop E d u evs s))"
proof (induction evs arbitrary: s)
  case Nil
  then show ?case by simp
next
  case (Cons ev evs)
  show ?case
  proof (cases ev)
    case (Text data)
    show ?thesis
    proof (cases "broadcast (send_broken E) (Relay data) d (Some u) s")
      case (Pair r s1)
      with consistent_broadcast[OF Cons.prems, of "send_broken E" "Relay data" d "Some u"]
      have "consistent s1" by simp
      with Cons.IH[of s1] Pair Text Cons.prems show ?thesis
        by (simp split: option.splits)
    qed
  next
    case Disconnect
    show ?thesis
    proof (cases "broadcast_presence (send_broken E) d (disconnect d u s)")
      case (Pair r s1)
      with consistent_broadcast_presence[OF consistent_disconnect[OF Cons.prems], of "send_broken E" d d u]
      have "consistent s1" by simp
      with Pair Disconnect show ?thesis by (simp split: option.splits)
    qed
  next
    case (RecvError e)
    with Cons.prems show ?thesis by simp
  qed
qed

lemma consistent_endpoint_body: "consistent s \<Longrightarrow> consistent (snd (endpoint_body E ws d tok now evs s))"
proof -
  assume w: "consistent s"
  have c: "consistent (snd (case connect (send_broken E) ws d u n now s of
                      (Some e, s1) \<Rightarrow> (Raised e, s1)
                    | (None, s1) \<Rightarrow> receive_loop E d u evs s1))" for u n
  proof (cases "connect (send_broken E) ws d u n now s")
    case (Pair r s1)
    with consistent_connect[OF w, of "send_broken E" ws d u n now] have "consistent s1" by simp
    with Pair show ?thesis by (cases r) (simp_all add: consistent_receive_loop)
  qed
  show ?thesis
    using w c by (simp add: endpoint_body_def split: sum.splits option.splits)
qed

lemma consistent_websocket_endpoint: "consistent s \<Longrightarrow> consistent (snd (websocket_endpoint E ws d token now evs s))"
proof -
  assume w: "consistent s"
  have "consistent (snd (case endpoint_body E ws d t now evs s of
                   (Raised e, s1) \<Rightarrow> (Returned, emit (Closed ws 1011 ''Internal error'') s1)
                 | (r, s1) \<Rightarrow> (r, s1)))" for t
  proof (cases "endpoint_body E ws d t now evs s")
    case (Pair r s1)
    with consistent_endpoint_body[OF w, of E ws d t now evs] have "consistent s1" by simp
    with Pair show ?thesis by (cases r) simp_all
  qed
  with w show ?thesis
    by (simp add: websocket_endpoint_def split: option.splits)
qed

lemma consistent_init: "consistent init"
  by (simp add: consistent_def init_def no_empty_room_def same_keys_def one_entry_per_user_def
      entries_keyed_def members_def entries_def)

lemma reachable_wf: "reachable s \<Longrightarrow> consistent s"
  by (induction rule: reachable.induct)
    (simp_all add: consistent_init consistent_connect consistent_disconnect consistent_broadcast consistent_broadcast_presence
      consistent_websocket_endpoint)

lemmas eval_defs = connect_def register_def init_def emit_def broadcast_presence_def broadcast_def
  members_def entries_def Let_def excluded_def disconnect_def snapshot_def

lemma one_user_members: "members one_user ''doc'' = [(''u1'', 1)]"
  by (simp add: one_user_def eval_defs)

section \<open>Rooms without members are not kept (C7)\<close>

text \<open>
  C7. In every state the manager reaches, no room with zero members is in either
  dictionary; and when the last member of a room is removed, by \<^verbatim>\<open>disconnect\<close> or by
  the removal that a failed send triggers in \<^verbatim>\<open>broadcast\<close>, the key of the room is
  absent from both dictionaries afterwards.
\<close>

theorem no_room_without_members:
  assumes "reachable s"
  shows "active_connections s d \<noteq> Some [] \<and> user_info s d \<noteq> Some [] \<and>
    (members s d = [(u, ws)] \<longrightarrow>
       active_connections (disconnect d u s) d = None \<and>
       user_info (disconnect d u s) d = None) \<and>
    (members s d = [(u, ws)] \<and> ws \<in> B \<and> \<not> excluded ex u \<longrightarrow>
       active_connections (snd (broadcast B msg d ex s)) d = None \<and>
       user_info (snd (broadcast B msg d ex s)) d = None)"
proof -
  from assms have w: "consistent s" by (rule reachable_wf)
  then have ne: "active_connections s d \<noteq> Some [] \<and> user_info s d \<noteq> Some []"
    by (simp add: consistent_def no_empty_room_def)
  have keys: "map fst (entries s d) = map fst (members s d)"
    using w by (auto simp: consistent_def same_keys_def members_def entries_def split: option.splits
        dest: spec[where x=d])
  have last: "active_connections (disconnect d u s) d = None \<and>
       user_info (disconnect d u s) d = None" if m: "members s d = [(u, ws)]"
  proof -
    from m keys have "map fst (entries s d) = [u]" by simp
    then have "AList.delete u (entries s d) = []" by (simp add: delete_Nil_iff)
    moreover from m have "AList.delete u (members s d) = []" by (simp add: delete_Nil_iff)
    ultimately show ?thesis
      using m by (auto simp: disconnect_active disconnect_info members_def entries_def
          split: option.splits)
  qed
  have "active_connections (snd (broadcast B msg d ex s)) d = None \<and>
       user_info (snd (broadcast B msg d ex s)) d = None"
    if m: "members s d = [(u, ws)]" and b: "ws \<in> B" and x: "\<not> excluded ex u"
    using last[OF m] m b x by (simp add: broadcast_eq)
  with ne last show ?thesis by blast
qed

text \<open>
  The claim holds at a concrete room: one user connects to a fresh manager, then leaves or
  is dropped by a failed send.
\<close>

theorem no_room_without_members_witness:
  "reachable one_user \<and> members one_user ''doc'' = [(''u1'', 1)] \<and> (1::nat) \<in> {1} \<and>
   \<not> excluded None ''u1'' \<and>
   active_connections one_user ''doc'' \<noteq> Some [] \<and>
   active_connections (disconnect ''doc'' ''u1'' one_user) ''doc'' = None \<and>
   user_info (disconnect ''doc'' ''u1'' one_user) ''doc'' = None \<and>
   active_connections (snd (broadcast {1} (Relay ''{}'') ''doc'' None one_user)) ''doc'' = None"
proof -
  have r: "reachable one_user"
    unfolding one_user_def by (intro reachable.by_connect reachable.start)
  have x: "\<not> excluded None ''u1''" by (simp add: excluded_def)
  from no_room_without_members[OF r, of "''doc''" "''u1''" 1 "{1}" None "Relay ''{}''"]
    one_user_members r x
  show ?thesis by simp
qed

section \<open>Both dictionaries describe the same membership (C10)\<close>

text \<open>
  C10. In every state the manager reaches by \<^verbatim>\<open>connect\<close>, \<^verbatim>\<open>disconnect\<close> and
  \<^verbatim>\<open>broadcast\<close> (with the removals its failed sends trigger), \<^verbatim>\<open>active_connections\<close>
  and \<^verbatim>\<open>user_info\<close> have the same document keys, and for each document the same user
  ids, in the same order.
\<close>

theorem same_membership_in_both_dictionaries:
  assumes "reachable s"
  shows "dom (active_connections s) = dom (user_info s) \<and>
         map fst (members s d) = map fst (entries s d)"
proof -
  from assms have k: "same_keys s" using reachable_wf by (simp add: consistent_def)
  have "dom (active_connections s) = dom (user_info s)"
    using same_keys_NoneD[OF k] by (auto simp: dom_def)
  moreover have "map fst (members s d) = map fst (entries s d)"
    using k by (auto simp: same_keys_def members_def entries_def split: option.splits
        dest: spec[where x=d])
  ultimately show ?thesis by simp
qed

text \<open>The state after one user has connected is such a state.\<close>

theorem same_membership_in_both_dictionaries_witness:
  "reachable one_user \<and> dom (active_connections one_user) = dom (user_info one_user) \<and>
   map fst (members one_user ''doc'') = map fst (entries one_user ''doc'')"
proof -
  have r: "reachable one_user"
    unfolding one_user_def by (intro reachable.by_connect reachable.start)
  from same_membership_in_both_dictionaries[OF r, of "''doc''"] r show ?thesis by simp
qed

section \<open>A failed send during a relay (C2)\<close>

text \<open>
  C2. The claim is that when the send to member B fails during a relay from A, the
  members after B still receive the message and B is removed. In the room of A, B and C
  with B's websocket broken, the code removes B and then leaves \<^verbatim>\<open>broadcast\<close> with
  \<^verbatim>\<open>RuntimeError\<close>: nothing is sent to C, and the receive loop of A ends with that
  exception.
\<close>

theorem failed_send_stops_the_relay:
  "broadcast {2} (Relay ''{}'') ''doc'' (Some ''A'') three_users =
     (Some RuntimeError, disconnect ''doc'' ''B'' three_users) \<and>
   members (disconnect ''doc'' ''B'' three_users) ''doc'' = [(''A'', 1), (''C'', 3)] \<and>
   effects (disconnect ''doc'' ''B'' three_users) = [] \<and>
   receive_loop (sample_env\<lparr>send_broken := {2}\<rparr>) ''doc'' ''A'' [Text ''{}''] three_users =
     (Raised RuntimeError, disconnect ''doc'' ''B'' three_users)"
  by (simp add: broadcast_def three_users_def excluded_def members_def disconnect_active emit_def
      AList.delete_eq sample_env_def)

section \<open>Close reasons of a rejected admission (C5)\<close>

text \<open>
  C5. The claim is that the four rejection conditions close the stream with four
  distinguishing reasons. A token that \<^verbatim>\<open>jwt.decode\<close> rejects, expired or invalid,
  makes \<^verbatim>\<open>decode_jwt_token\<close> raise; the handler of the outer \<^verbatim>\<open>try\<close> catches it and
  closes with code 1011 and the reason of an internal fault, the same close as when the
  database call raises.
\<close>

theorem invalid_credential_reported_as_internal_error:
  "websocket_endpoint sample_env 7 ''doc'' (Some ''expired'') ''t0'' [] init =
     (Returned, emit (Closed 7 1011 ''Internal error'') init) \<and>
   websocket_endpoint sample_env 7 ''doc'' (Some ''garbage'') ''t0'' [] init =
     (Returned, emit (Closed 7 1011 ''Internal error'') init) \<and>
   websocket_endpoint sample_env 7 ''down'' (Some ''token-u1'') ''t0'' [] init =
     (Returned, emit (Closed 7 1011 ''Internal error'') init)"
  by (simp add: websocket_endpoint_def endpoint_body_def decode_jwt_token_def sample_env_def
      falsy_def)

section \<open>Relay to the other members (C1)\<close>

lemma first_broken_None:
  "\<forall>(u, w) \<in> set room. \<not> excluded ex u \<longrightarrow> w \<notin> B \<Longrightarrow> first_broken B ex room = None"
  by (induction room) auto

lemma reached_all:
  "\<forall>(u, w) \<in> set room. \<not> excluded ex u \<longrightarrow> w \<notin> B \<Longrightarrow>
   reached B ex room = filter (\<lambda>(u, w). \<not> excluded ex u) room"
  by (induction room) auto

lemma excluded_Some: "uid \<noteq> [] \<Longrightarrow> excluded (Some uid) u = (u = uid)"
  by (auto simp: excluded_def)

lemma excluded_None [simp]: "\<not> excluded None u"
  by (simp add: excluded_def)

lemma reached_subset: "set (reached B ex room) \<subseteq> set room"
  by (induction room) (auto split: if_splits)

text \<open>
  C1, as the code has it. The loop hands every received text to \<^verbatim>\<open>json.loads\<close> before
  relaying it. For a text that \<^verbatim>\<open>json.loads\<close> accepts, received from the member
  \<open>uid\<close> whose identifier is not empty (admission guarantees it), and when no send to
  another member fails: the text is sent, unchanged, once to every other member of the
  room's connection map, in the order of the map, and not to \<open>uid\<close>; the dictionaries
  are unchanged and the loop goes on to the next event.
\<close>

theorem relay_reaches_every_other_member:
  assumes "json_loads E data" and "uid \<noteq> []"
    and "\<forall>(u, w) \<in> set (members s d). u \<noteq> uid \<longrightarrow> w \<notin> send_broken E"
  shows "receive_loop E d uid (Text data # evs) s =
    receive_loop E d uid evs
      (s\<lparr>effects := effects s @
           sends (Relay data) (filter (\<lambda>(u, w). u \<noteq> uid) (members s d))\<rparr>)"
proof -
  from assms(2,3)
  have h: "\<forall>(u, w) \<in> set (members s d). \<not> excluded (Some uid) u \<longrightarrow> w \<notin> send_broken E"
    by (auto simp: excluded_Some)
  have "broadcast (send_broken E) (Relay data) d (Some uid) s =
     (None, s\<lparr>effects := effects s @
           sends (Relay data) (filter (\<lambda>(u, w). u \<noteq> uid) (members s d))\<rparr>)"
    by (simp add: broadcast_eq first_broken_None[OF h] reached_all[OF h] excluded_Some[OF assms(2)])
  with assms(1) show ?thesis by simp
qed

text \<open>The room of A, B and C, where A relays the text \<^verbatim>\<open>{}\<close>.\<close>

theorem relay_reaches_every_other_member_witness:
  "json_loads sample_env ''{}'' \<and> ''A'' \<noteq> [] \<and> send_broken sample_env = {} \<and>
   receive_loop sample_env ''doc'' ''A'' [Text ''{}''] three_users =
     (Awaiting, three_users\<lparr>effects := [Sent 2 (Relay ''{}''), Sent 3 (Relay ''{}'')]\<rparr>)"
proof -
  have j: "json_loads sample_env ''{}''" by (simp add: sample_env_def)
  have n: "''A'' \<noteq> []" by simp
  have m: "members three_users ''doc'' = [(''A'', 1), (''B'', 2), (''C'', 3)]"
    by (simp add: members_def three_users_def)
  have h: "\<forall>(u, w) \<in> set (members three_users ''doc''). u \<noteq> ''A'' \<longrightarrow> w \<notin> send_broken sample_env"
    by (simp add: m sample_env_def)
  have e: "effects three_users = []" by (simp add: three_users_def)
  have b: "send_broken sample_env = {}" by (simp add: sample_env_def)
  from relay_reaches_every_other_member[OF j n h, of "[]"] j b
  show ?thesis by (simp add: m e sends_def)
qed

text \<open>
  The claim as stated, for every inbound message, fails on a text that is not JSON:
  \<^verbatim>\<open>json.loads\<close> raises, nothing is sent to B or C, and the loop ends.
\<close>

theorem text_that_is_not_json_is_not_relayed:
  "receive_loop sample_env ''doc'' ''A'' [Text ''hello''] three_users =
     (Raised JSONDecodeError, three_users) \<and>
   effects three_users = []"
  by (simp add: sample_env_def three_users_def)

section \<open>The relay and the content of the text (C9)\<close>

lemma relay_step:
  "json_loads E a \<Longrightarrow>
   receive_loop E d uid [Text a] s =
     (case first_broken (send_broken E) (Some uid) (members s d) of
        None \<Rightarrow>
          (Awaiting, s\<lparr>effects := effects s @
             sends (Relay a) (reached (send_broken E) (Some uid) (members s d))\<rparr>)
      | Some u \<Rightarrow>
          (Raised RuntimeError,
           (disconnect d u s)\<lparr>effects := effects s @
             sends (Relay a) (reached (send_broken E) (Some uid) (members s d))\<rparr>))"
  by (simp add: broadcast_eq split: option.splits)

text \<open>
  C9, as the code has it. For texts that \<^verbatim>\<open>json.loads\<close> accepts the relay does not
  depend on the text: two such texts give the same outcome and the same dictionaries,
  and each is sent unchanged to the same recipients; the loop stays suspended in
  \<^verbatim>\<open>receive_text\<close> when no send fails. A text that \<^verbatim>\<open>json.loads\<close> rejects is not
  relayed: the loop ends with the decoding exception.
\<close>

theorem relay_is_the_same_for_every_json_text:
  assumes "json_loads E a" and "json_loads E b"
  shows "fst (receive_loop E d uid [Text a] s) = fst (receive_loop E d uid [Text b] s) \<and>
    active_connections (snd (receive_loop E d uid [Text a] s)) =
      active_connections (snd (receive_loop E d uid [Text b] s)) \<and>
    user_info (snd (receive_loop E d uid [Text a] s)) =
      user_info (snd (receive_loop E d uid [Text b] s)) \<and>
    effects (snd (receive_loop E d uid [Text a] s)) =
      effects s @ sends (Relay a) (reached (send_broken E) (Some uid) (members s d)) \<and>
    effects (snd (receive_loop E d uid [Text b] s)) =
      effects s @ sends (Relay b) (reached (send_broken E) (Some uid) (members s d)) \<and>
    (first_broken (send_broken E) (Some uid) (members s d) = None \<longrightarrow>
       fst (receive_loop E d uid [Text a] s) = Awaiting) \<and>
    (\<not> json_loads E c \<longrightarrow>
       receive_loop E d uid (Text c # evs) s = (Raised JSONDecodeError, s))"
proof -
  note ra = relay_step[OF assms(1), of d uid s] and rb = relay_step[OF assms(2), of d uid s]
  have c: "\<not> json_loads E c \<longrightarrow>
       receive_loop E d uid (Text c # evs) s = (Raised JSONDecodeError, s)"
    by simp
  show ?thesis
    unfolding ra rb using c
    by (simp del: receive_loop.simps split: option.splits)
qed

theorem relay_is_the_same_for_every_json_text_witness:
  "json_loads sample_env ''{}'' \<and> \<not> json_loads sample_env ''hello'' \<and>
   first_broken (send_broken sample_env) (Some ''A'') (members three_users ''doc'') = None \<and>
   fst (receive_loop sample_env ''doc'' ''A'' [Text ''{}''] three_users) = Awaiting \<and>
   effects (snd (receive_loop sample_env ''doc'' ''A'' [Text ''{}''] three_users)) =
     [Sent 2 (Relay ''{}''), Sent 3 (Relay ''{}'')] \<and>
   receive_loop sample_env ''doc'' ''A'' [Text ''hello''] three_users =
     (Raised JSONDecodeError, three_users)"
proof -
  have j: "json_loads sample_env ''{}''" by (simp add: sample_env_def)
  have n: "\<not> json_loads sample_env ''hello''" by (simp add: sample_env_def)
  have m: "members three_users ''doc'' = [(''A'', 1), (''B'', 2), (''C'', 3)]"
    by (simp add: members_def three_users_def)
  have b: "send_broken sample_env = {}" by (simp add: sample_env_def)
  have f: "first_broken (send_broken sample_env) (Some ''A'') (members three_users ''doc'') = None"
    by (simp add: m b excluded_def)
  have r: "reached (send_broken sample_env) (Some ''A'') (members three_users ''doc'') =
      [(''B'', 2), (''C'', 3)]"
    by (simp add: m b excluded_def)
  have e: "effects three_users = []" by (simp add: three_users_def)
  from relay_is_the_same_for_every_json_text[OF j j, of "''doc''" "''A''" three_users "''hello''" "[]"]
    j n f
  show ?thesis by (simp add: r e sends_def)
qed

text \<open>
  The claim as stated, whether or not the text is well-formed JSON, fails: the user
  \<open>u2\<close> joins the room of \<open>u1\<close> and sends a text. The text \<^verbatim>\<open>{}\<close> is forwarded to
  \<open>u1\<close> and the connection stays open; the text \<^verbatim>\<open>hello\<close> is not forwarded and the
  connection of \<open>u2\<close> is closed with code 1011.
\<close>

theorem relay_depends_on_json_counterexample:
  "fst (websocket_endpoint sample_env 2 ''doc'' (Some ''token-u2'') ''t1'' [Text ''{}''] one_user)
     = Awaiting \<and>
   effects (snd (websocket_endpoint sample_env 2 ''doc'' (Some ''token-u2'') ''t1'' [Text ''{}''] one_user))
     = effects one_user @
       [Accepted 2,
        Sent 1 (Presence [\<lparr>user_id = ''u1'', user_name = ''Ann'', connected_at = ''t0''\<rparr>,
                          \<lparr>user_id = ''u2'', user_name = ''Bob'', connected_at = ''t1''\<rparr>]),
        Sent 2 (Presence [\<lparr>user_id = ''u1'', user_name = ''Ann'', connected_at = ''t0''\<rparr>,
                          \<lparr>user_id = ''u2'', user_name = ''Bob'', connected_at = ''t1''\<rparr>]),
        Sent 1 (Relay ''{}'')] \<and>
   fst (websocket_endpoint sample_env 2 ''doc'' (Some ''token-u2'') ''t1'' [Text ''hello''] one_user)
     = Returned \<and>
   effects (snd (websocket_endpoint sample_env 2 ''doc'' (Some ''token-u2'') ''t1'' [Text ''hello''] one_user))
     = effects one_user @
       [Accepted 2,
        Sent 1 (Presence [\<lparr>user_id = ''u1'', user_name = ''Ann'', connected_at = ''t0''\<rparr>,
                          \<lparr>user_id = ''u2'', user_name = ''Bob'', connected_at = ''t1''\<rparr>]),
        Sent 2 (Presence [\<lparr>user_id = ''u1'', user_name = ''Ann'', connected_at = ''t0''\<rparr>,
                          \<lparr>user_id = ''u2'', user_name = ''Bob'', connected_at = ''t1''\<rparr>]),
        Closed 2 1011 ''Internal error'']"
  by (simp add: websocket_endpoint_def endpoint_body_def decode_jwt_token_def sample_env_def
      falsy_def one_user_def eval_defs)

section \<open>Closure of a connection (C3)\<close>

lemma members_effects_update [simp]: "members (s\<lparr>effects := es\<rparr>) d = members s d"
  by (simp add: members_def)

lemma entries_effects_update [simp]: "entries (s\<lparr>effects := es\<rparr>) d = entries s d"
  by (simp add: entries_def)

lemma first_broken_in: "first_broken B ex room = Some u \<Longrightarrow> u \<in> set (map fst room)"
  by (induction room) (auto split: if_splits)

lemma members_broadcast:
  "members (snd (broadcast B msg d ex s)) d' =
     (case first_broken B ex (members s d) of
        None \<Rightarrow> members s d'
      | Some u \<Rightarrow> members (disconnect d u s) d')"
  by (simp add: broadcast_eq split: option.splits)



lemma consistent_members_Nil: "consistent s \<Longrightarrow> user_info s d = None \<Longrightarrow> members s d = []"
  by (simp add: consistent_def same_keys_NoneD members_def)

lemma broadcast_presence_eq:
  "consistent s \<Longrightarrow> broadcast_presence B d s = broadcast B (Presence (snapshot s d)) d None s"
  by (auto simp: broadcast_presence_def snapshot_def broadcast_def consistent_def same_keys_NoneD
      split: option.splits)



lemma reachable_one_user: "reachable one_user"
  unfolding one_user_def by (intro reachable.by_connect reachable.start)

lemma reachable_two_users: "reachable two_users"
  unfolding two_users_def by (intro reachable.by_connect reachable_one_user)

lemma two_users_members: "members two_users ''doc'' = [(''u1'', 1), (''u2'', 2)]"
  by (simp add: two_users_def one_user_def eval_defs)





section \<open>Connecting again with a user already in the room (C8)\<close>

lemma members_register:
  "same_keys s \<Longrightarrow>
   members (snd (register ws d u n t s)) d' =
     (if d' = d then AList.update u ws (members s d) else members s d')"
  by (simp add: register_eq members_def)

lemma entries_register:
  "same_keys s \<Longrightarrow>
   entries (snd (register ws d u n t s)) d' =
     (if d' = d
      then AList.update u \<lparr>user_id = u, user_name = n, connected_at = t\<rparr> (entries s d)
      else entries s d')"
  by (simp add: register_eq entries_def)


lemma connect_as_broadcast:
  assumes "consistent s"
  shows "connect B ws d u n t s =
     broadcast B (Presence (snapshot (snd (register ws d u n t s)) d)) d None
       (snd (register ws d u n t s))"
proof -
  from assms have k: "same_keys s" by (simp add: consistent_def)
  show ?thesis
    by (simp add: connect_eq[OF k] broadcast_presence_eq[OF consistent_register[OF assms]])
qed

lemma length_delete_le: "length (AList.delete u xs) \<le> length xs"
  by (simp add: AList.delete_eq)

text \<open>
  C8. When \<^verbatim>\<open>connect\<close> is called for a user already present in the room, the
  registration (lines 47 to 58) stores the new websocket and the new presence entry
  under the user's key: the user ids of the room and their order are the same, so the
  member count does not increase, the entries of the other users are untouched, and the
  user ids of the room are pairwise distinct before and after. After the whole of
  \<^verbatim>\<open>connect\<close>, with its presence broadcast, the user ids are still distinct, the count
  has not increased, and the user's entry holds the new websocket, unless the send to
  that websocket failed and removed it.
\<close>

theorem reconnect_replaces_the_entry:
  assumes "reachable s" and "uid \<in> set (map fst (members s d))"
  shows "map_of (members (snd (register ws d uid n t s)) d) uid = Some ws \<and>
    map_of (entries (snd (register ws d uid n t s)) d) uid =
      Some \<lparr>user_id = uid, user_name = n, connected_at = t\<rparr> \<and>
    map fst (members (snd (register ws d uid n t s)) d) = map fst (members s d) \<and>
    (\<forall>u. u \<noteq> uid \<longrightarrow>
       map_of (members (snd (register ws d uid n t s)) d) u = map_of (members s d) u) \<and>
    distinct (map fst (members s d)) \<and>
    distinct (map fst (members (snd (register ws d uid n t s)) d)) \<and>
    length (members (snd (register ws d uid n t s)) d) = length (members s d) \<and>
    distinct (map fst (members (snd (connect B ws d uid n t s)) d)) \<and>
    length (members (snd (connect B ws d uid n t s)) d) \<le> length (members s d) \<and>
    (map_of (members (snd (connect B ws d uid n t s)) d) uid = Some ws \<or>
     map_of (members (snd (connect B ws d uid n t s)) d) uid = None)"
proof -
  let ?s1 = "snd (register ws d uid n t s)"
  let ?s2 = "snd (connect B ws d uid n t s)"
  from assms(1) have w: "consistent s" by (rule reachable_wf)
  then have k: "same_keys s" and o: "distinct (map fst (members s d))"
    by (simp_all add: consistent_def one_entry_per_user_def)
  have m1: "members ?s1 d = AList.update uid ws (members s d)"
    by (simp add: members_register[OF k])
  have e1: "entries ?s1 d =
      AList.update uid \<lparr>user_id = uid, user_name = n, connected_at = t\<rparr> (entries s d)"
    by (simp add: entries_register[OF k])
  have keys: "map fst (members ?s1 d) = map fst (members s d)"
    using assms(2) by (simp add: m1 update_keys)
  then have len: "length (members ?s1 d) = length (members s d)"
    by (metis length_map)
  have d1: "distinct (map fst (members ?s1 d))"
    using o keys by simp
  have a: "map_of (members ?s1 d) uid = Some ws"
    by (simp add: m1 update_conv')
  have b: "map_of (entries ?s1 d) uid = Some \<lparr>user_id = uid, user_name = n, connected_at = t\<rparr>"
    by (simp add: e1 update_conv')
  have c: "\<forall>u. u \<noteq> uid \<longrightarrow> map_of (members ?s1 d) u = map_of (members s d) u"
    by (simp add: m1 update_conv')
  have m2: "members ?s2 d = members ?s1 d \<or> (\<exists>u. members ?s2 d = AList.delete u (members ?s1 d))"
    by (auto simp: connect_as_broadcast[OF w] members_broadcast members_disconnect
        split: option.splits)
  then have d2: "distinct (map fst (members ?s2 d))"
    using d1 by (auto simp: distinct_delete)
  have l2: "length (members ?s2 d) \<le> length (members s d)"
    using m2 len length_delete_le by (metis order_refl)
  have f: "map_of (members ?s2 d) uid = Some ws \<or> map_of (members ?s2 d) uid = None"
    using m2 a by (auto simp: delete_conv' split: if_splits)
  from a b keys c o d1 len d2 l2 f show ?thesis by blast
qed

text \<open>The user \<open>u1\<close> of a room of two connects again, with the websocket 5.\<close>

theorem reconnect_replaces_the_entry_witness:
  "reachable two_users \<and> ''u1'' \<in> set (map fst (members two_users ''doc'')) \<and>
   map_of (members two_users ''doc'') ''u1'' = Some 1 \<and>
   map_of (members (snd (register 5 ''doc'' ''u1'' ''Ann'' ''t2'' two_users)) ''doc'') ''u1'' = Some 5 \<and>
   map fst (members (snd (register 5 ''doc'' ''u1'' ''Ann'' ''t2'' two_users)) ''doc'') =
     [''u1'', ''u2''] \<and>
   length (members (snd (connect {} 5 ''doc'' ''u1'' ''Ann'' ''t2'' two_users)) ''doc'') \<le> 2"
proof -
  have i: "''u1'' \<in> set (map fst (members two_users ''doc''))"
    by (simp add: two_users_members)
  from reconnect_replaces_the_entry[OF reachable_two_users i, of 5 "''Ann''" "''t2''" "{}"]
    reachable_two_users
  show ?thesis by (simp add: two_users_members)
qed

section \<open>Sequences of joins and leaves (C4)\<close>


















section \<open>Admission of a collaborator (C6)\<close>






end
